theory Spec2Isabelle
  imports Main "HOL-Library.Char_ord" "HOL-Library.List_Lexorder"
begin

section \<open>The journal statistics of vizier\_stats.py\<close>

text \<open>
  The script classifies every record of the catalogue table by the journal named in its
  bibliographic code, counts the records per journal, folds the rare journals into the
  bucket \<open>other\<close>, asks a naming service for the display names it does not know yet, and
  arranges names and counts in two levels for a sunburst chart.

  Python strings are modelled by \<open>string\<close>; a bibliographic code is ASCII, so a
  \<open>char\<close> is one character of it. Python integers are \<open>int\<close>.
\<close>

subsection \<open>String operations of Python used by the script\<close>

text \<open>\<^verbatim>\<open>s.split(sep)\<close> for a separator of one character: the pieces between the
  separators, in order; a string without the separator is the only piece.\<close>

fun split :: "char \<Rightarrow> string \<Rightarrow> string list" where
  "split sep [] = [[]]"
| "split sep (c # cs) =
     (if c = sep then [] # split sep cs
      else (case split sep cs of
              [] \<Rightarrow> [[c]]
            | piece # pieces \<Rightarrow> (c # piece) # pieces))"

text \<open>\<^verbatim>\<open>xs[0]\<close>: the first element; IndexError on the empty list is \<open>None\<close>.\<close>

fun first :: "'a list \<Rightarrow> 'a option" where
  "first [] = None"
| "first (x # xs) = Some x"

text \<open>\<^verbatim>\<open>s.replace(old, new)\<close> for \<open>old\<close> and \<open>new\<close> of one character.\<close>

fun replace :: "char \<Rightarrow> char \<Rightarrow> string \<Rightarrow> string" where
  "replace old new [] = []"
| "replace old new (c # cs) =
     (if c = old then new # replace old new cs else c # replace old new cs)"

text \<open>\<^verbatim>\<open>str(n)\<close> of an integer, as the f-strings of the script print it.\<close>

definition digit :: "nat \<Rightarrow> char" where
  "digit d = char_of (48 + d)"

function str_nat :: "nat \<Rightarrow> string" where
  "str_nat n = (if n < 10 then [digit n] else str_nat (n div 10) @ [digit (n mod 10)])"
  by pat_completeness auto
termination
  by (relation "measure id") auto

declare str_nat.simps [simp del]

definition str :: "int \<Rightarrow> string" where
  "str i = (if i < 0 then CHR ''-'' # str_nat (nat (- i)) else str_nat (nat i))"

subsection \<open>Errors\<close>

text \<open>The exceptions that leave the modelled functions: an index out of range, a file that
  cannot be opened, a key missing from the body of a reply, and the \<^verbatim>\<open>Warning\<close> the
  resolver raises on a reply whose status is not 200; its argument is the message.\<close>

datatype error = IndexError | FileNotFoundError | KeyError | Warning string

subsection \<open>Classification and aggregation: get\_count\_for\_journals\<close>

text \<open>The table of catalogue records, by columns: the column \<^verbatim>\<open>bibcode\<close>, the column
  \<^verbatim>\<open>number of catalogues\<close> (named by the constant \<^verbatim>\<open>number_catalogs\<close>), which
  the table may or may not have, and every other column in the extension of the record.\<close>

record metadata =
  bibcode :: "string list"
  number_catalogs :: "string list option"

text \<open>Lines 45 to 49, the three list comprehensions in turn:
  \<^verbatim>\<open>bibcode[4:].split(".")[0]\<close>, then \<^verbatim>\<open>code.replace("+", "&")\<close>, then
  \<^verbatim>\<open>code.split("(")[0]\<close>. A failing index 0 fails the whole comprehension.\<close>

definition journal_codes :: "string list \<Rightarrow> string list option" where
  "journal_codes bibcodes =
     (case those (map (\<lambda>b. first (split (CHR ''.'') (drop 4 b))) bibcodes) of
        None \<Rightarrow> None
      | Some journal_code1 \<Rightarrow>
          (let journal_code2 = map (replace (CHR ''+'') (CHR ''&'')) journal_code1
           in those (map (\<lambda>code. first (split (CHR ''('') code)) journal_code2)))"

text \<open>The classifier in the words of the specification: drop the first four characters,
  keep what comes before the first full stop, write \<open>&\<close> for every \<open>+\<close>, cut at the
  first opening parenthesis.\<close>

definition classifier_spec :: "string \<Rightarrow> string" where
  "classifier_spec b =
     takeWhile (\<lambda>c. c \<noteq> CHR ''('')
       (map (\<lambda>c. if c = CHR ''+'' then CHR ''&'' else c)
          (takeWhile (\<lambda>c. c \<noteq> CHR ''.'') (drop 4 b)))"

text \<open>Lines 55 to 57: \<^verbatim>\<open>metadata.groupby(journal_code).count()\<close>, the index made a
  column named \<^verbatim>\<open>index\<close>, and the columns \<^verbatim>\<open>index\<close> and
  \<^verbatim>\<open>number of catalogues\<close> kept. The list \<^verbatim>\<open>journal_code\<close> gives the key of
  every row; the groups are the distinct keys in ascending order; \<^verbatim>\<open>count\<close> gives
  the number of cells of the group that are not null, and the cells of the column
  \<^verbatim>\<open>number of catalogues\<close> are the keys themselves, never null. This is the grouping
  as the library documents it, for a table that has no column named \<^verbatim>\<open>index\<close> and
  whose journal codes are not names of its columns.\<close>

definition groupby_count :: "string list \<Rightarrow> (string \<times> int) list" where
  "groupby_count journal_code =
     map (\<lambda>k. (k, int (length (filter (\<lambda>code. code = k) journal_code))))
       (sort (remdups journal_code))"

text \<open>Lines 58 to 60: the rows whose count is below the cut or whose index is the empty
  string get the index \<^verbatim>\<open>other\<close>.\<close>

definition to_other :: "int \<Rightarrow> (string \<times> int) list \<Rightarrow> (string \<times> int) list" where
  "to_other cutoff count_journal =
     map (\<lambda>(index, n). (if n < cutoff \<or> index = [] then ''other'' else index, n)) count_journal"

text \<open>Lines 63 and 64: \<^verbatim>\<open>count_journal.groupby("index").sum(...)\<close> and the index made a
  column again: one row for each distinct index, in ascending order, with the sum of the
  counts of its rows.\<close>

definition groupby_sum :: "(string \<times> int) list \<Rightarrow> (string \<times> int) list" where
  "groupby_sum count_journal =
     map (\<lambda>k. (k, sum_list (map snd (filter (\<lambda>row. fst row = k) count_journal))))
       (sort (remdups (map fst count_journal)))"

text \<open>The function returns the table \<^verbatim>\<open>count_per_journal\<close>, a list of rows (index,
  number of catalogues); line 52 has assigned the column \<^verbatim>\<open>number of catalogues\<close>
  of the table it was given, so the model returns that table too.\<close>

definition get_count_for_journals ::
  "'a metadata_scheme \<Rightarrow> int \<Rightarrow> error + ('a metadata_scheme \<times> (string \<times> int) list)" where
  "get_count_for_journals metadata cutoff =
     (case journal_codes (bibcode metadata) of
        None \<Rightarrow> Inl IndexError
      | Some journal_code \<Rightarrow>
          Inr (metadata\<lparr>number_catalogs := Some journal_code\<rparr>,
               groupby_sum (to_other cutoff (groupby_count journal_code))))"

subsection \<open>Name resolution: get\_dict\_of\_journals\_names\<close>

text \<open>The content of \<^verbatim>\<open>journal_names.json\<close> is a JSON object from journal codes to
  display names, a dictionary once loaded.\<close>

type_synonym name_map = "string \<rightharpoonup> string"

text \<open>What the script reads of a reply of the naming service: the status, and the field
  \<^verbatim>\<open>["summary"]["master"]["journal_name"]\<close> of the body, \<open>None\<close> when the body does
  not have it.\<close>

record response =
  status_code :: int
  body_journal_name :: "string option"

text \<open>What the resolver and the chart read and change outside themselves: the file of
  names (\<open>None\<close> when it cannot be opened), how many times it was written, and the
  addresses requested from the naming service so far.\<close>

record world =
  journal_names_json :: "name_map option"
  writes :: nat
  requests :: "string list"

definition ads_api_adress :: string where
  "ads_api_adress = ''https://api.adsabs.harvard.edu/v1/journals/summary/''"

text \<open>The variables of the loop of lines 88 to 106, the requests it has sent, and the
  exception that ended it, if one did.\<close>

record scan =
  current_list :: name_map
  updated :: bool
  sent :: "string list"
  raised :: "error option"

text \<open>The loop. \<open>requests_get\<close> is the naming service: the reply to an address and an
  authorization header; a run asks for an address at most once, since a code that was
  resolved is in the dictionary from then on. Every index of the table is a string, so the
  test \<^verbatim>\<open>isinstance(index, str)\<close> holds.\<close>

fun scan_journals ::
  "(string \<Rightarrow> string \<Rightarrow> response) \<Rightarrow> string \<Rightarrow> string list \<Rightarrow> scan \<Rightarrow> scan" where
  "scan_journals requests_get ads_api_key [] s = s"
| "scan_journals requests_get ads_api_key (index # rest) s =
     (if current_list s index = None \<and> index \<noteq> ''other'' then
        (let result = requests_get (ads_api_adress @ index) (''Bearer '' @ ads_api_key);
             s1 = s\<lparr>sent := sent s @ [ads_api_adress @ index]\<rparr>
         in if status_code result = 200 then
              (case body_journal_name result of
                 None \<Rightarrow> s1\<lparr>raised := Some KeyError\<rparr>
               | Some journal_name \<Rightarrow>
                   scan_journals requests_get ads_api_key rest
                     (s1\<lparr>current_list := (current_list s1)(index \<mapsto> journal_name),
                         updated := True\<rparr>))
            else s1\<lparr>raised :=
                      Some (Warning (''request status code: '' @ str (status_code result)))\<rparr>)
      else scan_journals requests_get ads_api_key rest s)"

definition get_dict_of_journals_names ::
  "(string \<Rightarrow> string \<Rightarrow> response) \<Rightarrow> (string \<times> int) list \<Rightarrow> string \<Rightarrow> world
     \<Rightarrow> (error + unit) \<times> world" where
  "get_dict_of_journals_names requests_get count_per_journal ads_api_key w =
     (case journal_names_json w of
        None \<Rightarrow> (Inl FileNotFoundError, w)
      | Some names \<Rightarrow>
          (let s = scan_journals requests_get ads_api_key (map fst count_per_journal)
                     \<lparr>current_list = names, updated = False, sent = requests w,
                      raised = None\<rparr>
           in case raised s of
                Some e \<Rightarrow> (Inl e, w\<lparr>requests := sent s\<rparr>)
              | None \<Rightarrow>
                  if updated s
                  then (Inr (), w\<lparr>journal_names_json := Some (current_list s),
                                 writes := Suc (writes w), requests := sent s\<rparr>)
                  else (Inr (), w\<lparr>requests := sent s\<rparr>)))"

subsection \<open>The two levels of the chart: plot\_pie\_chart, lines 122 to 138\<close>

definition principal_journal :: "(string \<times> string) list" where
  "principal_journal =
     [(''Astronomy and Astrophysics'', ''Astronomy & Astrophysics Journals''),
      (''Astronomy and Astrophysics Supplement Series'', ''Astronomy & Astrophysics Journals''),
      (''The Astronomical Journal'', ''American Astronomical Society Journals''),
      (''The Astrophysical Journal'', ''American Astronomical Society Journals''),
      (''The Astrophysical Journal Supplement Series'',
       ''American Astronomical Society Journals'')]"

text \<open>A row of \<^verbatim>\<open>count_per_journal\<close> once the two name columns are there. A cell
  without a value (NaN) is \<open>None\<close>.\<close>

record chart_row =
  index :: string
  number_of_catalogues :: int
  sub_journal_name :: "string option"
  journal_name :: "string option"

text \<open>\<^verbatim>\<open>Series.replace(table)\<close> on one cell: a value that is a key of the table becomes
  the table's value for it, any other cell stays.\<close>

definition series_replace :: "(string \<times> string) list \<Rightarrow> string option \<Rightarrow> string option" where
  "series_replace table cell =
     (case cell of
        None \<Rightarrow> None
      | Some v \<Rightarrow> (case map_of table v of None \<Rightarrow> Some v | Some v' \<Rightarrow> Some v'))"

text \<open>\<^verbatim>\<open>==\<close> of two columns on one row: a cell without a value equals nothing.\<close>

definition series_eq :: "string option \<Rightarrow> string option \<Rightarrow> bool" where
  "series_eq a b = (case (a, b) of (Some x, Some y) \<Rightarrow> x = y | _ \<Rightarrow> False)"

text \<open>Lines 127 to 138 on one row of the table: the code looked up in the names, the
  family of that name, and the name kept as sub journal only where it differs from the
  family.\<close>

definition chart_row_of :: "name_map \<Rightarrow> string \<times> int \<Rightarrow> chart_row" where
  "chart_row_of journal_names =
     (\<lambda>(i, n).
        (let sub = journal_names i;
             family = series_replace principal_journal sub
         in \<lparr>index = i, number_of_catalogues = n,
             sub_journal_name = (if series_eq sub family then None else sub),
             journal_name = family\<rparr>))"

text \<open>The table handed to the chart library. The date and the total only go into the
  title of the chart.\<close>

definition plot_pie_chart :: "world \<Rightarrow> int \<Rightarrow> (string \<times> int) list \<Rightarrow> error + chart_row list" where
  "plot_pie_chart w cutoff count_per_journal =
     (case journal_names_json w of
        None \<Rightarrow> Inl FileNotFoundError
      | Some names \<Rightarrow>
          (let journal_names =
                 names(''other'' \<mapsto> ''journals with less than '' @ str cutoff @ '' catalogues'')
           in Inr (map (chart_row_of journal_names) count_per_journal)))"

subsection \<open>A naming service and a file of names to run the resolver on\<close>

text \<open>A service that knows the code \<^verbatim>\<open>A&A\<close> and answers 404 to every other request, and
  a file that holds one name.\<close>

definition ads_example :: "string \<Rightarrow> string \<Rightarrow> response" where
  "ads_example url authorization =
     (if url = ads_api_adress @ ''A&A''
      then \<lparr>status_code = 200, body_journal_name = Some ''Astronomy and Astrophysics''\<rparr>
      else \<lparr>status_code = 404, body_journal_name = None\<rparr>)"

definition world_example :: world where
  "world_example =
     \<lparr>journal_names_json = Some [''AJ'' \<mapsto> ''The Astronomical Journal''], writes = 0,
      requests = []\<rparr>"

section \<open>Properties\<close>

subsection \<open>Helper facts on the string operations\<close>

lemma split_not_empty: "split sep s \<noteq> []"
  by (induction s) (auto split: list.splits)

lemma first_split: "first (split sep s) = Some (takeWhile (\<lambda>c. c \<noteq> sep) s)"
proof (induction s)
  case Nil
  show ?case by simp
next
  case (Cons c cs)
  show ?case
  proof (cases "split sep cs")
    case Nil
    then show ?thesis using split_not_empty [of sep cs] by simp
  next
    case (Cons piece pieces)
    with Cons.IH show ?thesis by simp
  qed
qed

lemma replace_map: "replace old new s = map (\<lambda>c. if c = old then new else c) s"
  by (induction s) simp_all

lemma those_map_Some: "those (map (\<lambda>x. Some (f x)) xs) = Some (map f xs)"
  by (induction xs) simp_all

lemma journal_codes_eq: "journal_codes bibcodes = Some (map classifier_spec bibcodes)"
  by (simp add: journal_codes_def classifier_spec_def first_split replace_map those_map_Some
      comp_def)

lemma classifier_spec_chars:
  "CHR ''.'' \<notin> set (classifier_spec b) \<and> CHR ''('' \<notin> set (classifier_spec b) \<and>
   CHR ''+'' \<notin> set (classifier_spec b)"
proof -
  let ?s = "takeWhile (\<lambda>c. c \<noteq> CHR ''.'') (drop 4 b)"
  let ?m = "map (\<lambda>c. if c = CHR ''+'' then CHR ''&'' else c) ?s"
  have dot: "CHR ''.'' \<notin> set ?s"
    by (auto dest: set_takeWhileD)
  have "CHR ''.'' \<notin> set ?m" "CHR ''+'' \<notin> set ?m"
    using dot by auto
  moreover have "set (classifier_spec b) \<subseteq> set ?m"
    unfolding classifier_spec_def by (auto dest: set_takeWhileD)
  moreover have "CHR ''('' \<notin> set (classifier_spec b)"
    unfolding classifier_spec_def by (auto dest: set_takeWhileD)
  ultimately show ?thesis by blast
qed

subsection \<open>Helper facts on the two groupings\<close>











subsection \<open>The aggregation\<close>




subsection \<open>The classifier\<close>

text \<open>C3. The three comprehensions of the script compute, for every bibliographic code, what
  the four steps of the specification describe, as a function of the code alone. The two
  codes of the example both give \<^verbatim>\<open>A&A\<close>, and with the cutoff 1 the table of the two
  records aggregates to the single row (\<^verbatim>\<open>A&A\<close>, 2).\<close>

theorem classifier_follows_the_four_steps:
  "journal_codes bibcodes = Some (map classifier_spec bibcodes) \<and>
   journal_codes [''2021A&A...650A.1'', ''2021A&A...650A.2''] = Some [''A&A'', ''A&A''] \<and>
   get_count_for_journals
     \<lparr>bibcode = [''2021A&A...650A.1'', ''2021A&A...650A.2''], number_catalogs = None\<rparr> 1
   = Inr (\<lparr>bibcode = [''2021A&A...650A.1'', ''2021A&A...650A.2''],
           number_catalogs = Some [''A&A'', ''A&A'']\<rparr>, [(''A&A'', 2)])"
  by (simp add: get_count_for_journals_def journal_codes_eq classifier_spec_def
      groupby_count_def to_other_def groupby_sum_def)

text \<open>C10. Whatever the bibliographic codes, the classification returns, and none of the
  journal codes it returns contains a full stop, an opening parenthesis or a plus sign.\<close>

theorem journal_code_characters:
  "\<exists>codes. journal_codes bibcodes = Some codes \<and>
     (\<forall>code\<in>set codes. CHR ''.'' \<notin> set code \<and> CHR ''('' \<notin> set code \<and> CHR ''+'' \<notin> set code)"
  using classifier_spec_chars by (auto simp: journal_codes_eq)

theorem journal_code_characters_witness:
  "journal_codes [''1999A+A(B)S.3''] = Some [''A&A''] \<and>
   CHR ''.'' \<notin> set ''A&A'' \<and> CHR ''('' \<notin> set ''A&A'' \<and> CHR ''+'' \<notin> set ''A&A''"
  using journal_code_characters [of "[''1999A+A(B)S.3'']"]
  by (simp add: journal_codes_eq classifier_spec_def)

subsection \<open>The table of records\<close>



subsection \<open>Helper facts on the resolver\<close>

lemma str_404: "str 404 = ''404''"
  by code_simp

lemma scan_cases:
  obtains
    (skip) "c = ''other'' \<or> c \<in> dom (current_list s)"
      "scan_journals requests_get key (c # rest) s = scan_journals requests_get key rest s"
  | (failed) "status_code (requests_get (ads_api_adress @ c) (''Bearer '' @ key)) \<noteq> 200"
      "scan_journals requests_get key (c # rest) s
       = s\<lparr>sent := sent s @ [ads_api_adress @ c],
           raised := Some (Warning (''request status code: '' @
             str (status_code (requests_get (ads_api_adress @ c) (''Bearer '' @ key)))))\<rparr>"
  | (no_name) "status_code (requests_get (ads_api_adress @ c) (''Bearer '' @ key)) = 200"
      "scan_journals requests_get key (c # rest) s
       = s\<lparr>sent := sent s @ [ads_api_adress @ c], raised := Some KeyError\<rparr>"
  | (resolved) name where "c \<notin> dom (current_list s)"
      "status_code (requests_get (ads_api_adress @ c) (''Bearer '' @ key)) = 200"
      "scan_journals requests_get key (c # rest) s
       = scan_journals requests_get key rest
           (s\<lparr>sent := sent s @ [ads_api_adress @ c],
              current_list := (current_list s)(c \<mapsto> name), updated := True\<rparr>)"
proof (cases "current_list s c = None \<and> c \<noteq> ''other''")
  case False
  then show ?thesis by (intro skip) auto
next
  case True
  let ?result = "requests_get (ads_api_adress @ c) (''Bearer '' @ key)"
  show ?thesis
  proof (cases "status_code ?result = 200")
    case False
    with True show ?thesis by (intro failed) (simp_all add: Let_def)
  next
    case ok: True
    show ?thesis
    proof (cases "body_journal_name ?result")
      case None
      with True ok show ?thesis by (intro no_name) (simp_all add: Let_def)
    next
      case (Some name)
      with True ok show ?thesis by (intro resolved [of name]) (auto simp: Let_def)
    qed
  qed
qed

lemma scan_known:
  "\<forall>c\<in>set codes. c \<noteq> ''other'' \<longrightarrow> c \<in> dom (current_list s) \<Longrightarrow>
   scan_journals requests_get key codes s = s"
  by (induction codes arbitrary: s) auto

lemma scan_grows:
  "current_list s \<subseteq>\<^sub>m current_list (scan_journals requests_get key codes s) \<and>
   dom (current_list (scan_journals requests_get key codes s)) \<subseteq> dom (current_list s) \<union> set codes"
proof (induction codes arbitrary: s)
  case Nil
  show ?case by simp
next
  case (Cons c rest)
  show ?case
  proof (cases rule: scan_cases [of c s requests_get key rest])
    case skip
    with Cons.IH [of s] show ?thesis by auto
  next
    case failed
    then show ?thesis by auto
  next
    case no_name
    then show ?thesis by auto
  next
    case (resolved name)
    let ?s2 = "s\<lparr>sent := sent s @ [ads_api_adress @ c],
                 current_list := (current_list s)(c \<mapsto> name), updated := True\<rparr>"
    have "current_list s \<subseteq>\<^sub>m current_list ?s2"
      using resolved(1) by (auto simp: map_le_def)
    moreover have "current_list ?s2 \<subseteq>\<^sub>m current_list (scan_journals requests_get key rest ?s2)"
      using Cons.IH [of ?s2] by (rule conjunct1)
    ultimately have "current_list s \<subseteq>\<^sub>m current_list (scan_journals requests_get key rest ?s2)"
      by (rule map_le_trans)
    moreover have "dom (current_list (scan_journals requests_get key rest ?s2))
                   \<subseteq> dom (current_list ?s2) \<union> set rest"
      using Cons.IH [of ?s2] by (rule conjunct2)
    then have "dom (current_list (scan_journals requests_get key rest ?s2))
               \<subseteq> dom (current_list s) \<union> set (c # rest)"
      by auto
    ultimately show ?thesis
      unfolding resolved(3) by (rule conjI)
  qed
qed

lemma scan_sent:
  "\<exists>new. sent (scan_journals requests_get key codes s) = sent s @ new \<and>
     (\<forall>url\<in>set new. status_code (requests_get url (''Bearer '' @ key)) \<noteq> 200 \<longrightarrow>
        raised (scan_journals requests_get key codes s)
          = Some (Warning (''request status code: ''
                           @ str (status_code (requests_get url (''Bearer '' @ key))))) \<and>
        last new = url)"
proof (induction codes arbitrary: s)
  case Nil
  show ?case by simp
next
  case (Cons c rest)
  show ?case
  proof (cases rule: scan_cases [of c s requests_get key rest])
    case skip
    with Cons.IH [of s] show ?thesis by simp
  next
    case failed
    then show ?thesis by simp
  next
    case no_name
    then show ?thesis by simp
  next
    case (resolved name)
    let ?url = "ads_api_adress @ c"
    let ?s2 = "s\<lparr>sent := sent s @ [?url],
                 current_list := (current_list s)(c \<mapsto> name), updated := True\<rparr>"
    from Cons.IH [of ?s2] obtain new where
      new: "sent (scan_journals requests_get key rest ?s2) = sent ?s2 @ new"
      and bad: "\<forall>url\<in>set new. status_code (requests_get url (''Bearer '' @ key)) \<noteq> 200 \<longrightarrow>
          raised (scan_journals requests_get key rest ?s2)
            = Some (Warning (''request status code: ''
                         @ str (status_code (requests_get url (''Bearer '' @ key))))) \<and>
          last new = url"
      by blast
    have "sent (scan_journals requests_get key (c # rest) s) = sent s @ (?url # new)"
      unfolding resolved(3) using new by simp
    moreover have "\<forall>url\<in>set (?url # new).
        status_code (requests_get url (''Bearer '' @ key)) \<noteq> 200 \<longrightarrow>
          raised (scan_journals requests_get key (c # rest) s)
            = Some (Warning (''request status code: ''
                         @ str (status_code (requests_get url (''Bearer '' @ key))))) \<and>
          last (?url # new) = url"
      unfolding resolved(3) using bad resolved(2) by auto
    ultimately show ?thesis by blast
  qed
qed

lemma scan_resolves:
  "raised (scan_journals requests_get key codes s) = None \<Longrightarrow>
   \<forall>c\<in>set codes. c \<noteq> ''other'' \<longrightarrow>
      c \<in> dom (current_list (scan_journals requests_get key codes s))"
proof (induction codes arbitrary: s)
  case Nil
  show ?case by simp
next
  case (Cons c rest)
  show ?case
  proof (cases rule: scan_cases [of c s requests_get key rest])
    case skip
    have "dom (current_list s) \<subseteq> dom (current_list (scan_journals requests_get key rest s))"
      using scan_grows [where s = s and codes = rest and requests_get = requests_get and key = key]
      by (simp add: map_le_implies_dom_le)
    with skip Cons.IH [of s] Cons.prems show ?thesis by auto
  next
    case failed
    with Cons.prems show ?thesis by simp
  next
    case no_name
    with Cons.prems show ?thesis by simp
  next
    case (resolved name)
    let ?s2 = "s\<lparr>sent := sent s @ [ads_api_adress @ c],
                 current_list := (current_list s)(c \<mapsto> name), updated := True\<rparr>"
    have "dom (current_list ?s2) \<subseteq> dom (current_list (scan_journals requests_get key rest ?s2))"
      using scan_grows [where s = ?s2 and codes = rest and requests_get = requests_get and key = key]
      by (simp only: map_le_implies_dom_le)
    then have "c \<in> dom (current_list (scan_journals requests_get key rest ?s2))"
      by auto
    with resolved(3) Cons.IH [of ?s2] Cons.prems show ?thesis by auto
  qed
qed

lemma scan_not_updated:
  "\<not> updated (scan_journals requests_get key codes s) \<Longrightarrow>
   current_list (scan_journals requests_get key codes s) = current_list s \<and> \<not> updated s"
proof (induction codes arbitrary: s)
  case Nil
  then show ?case by simp
next
  case (Cons c rest)
  show ?case
  proof (cases rule: scan_cases [of c s requests_get key rest])
    case skip
    with Cons.IH [of s] Cons.prems show ?thesis by simp
  next
    case failed
    with Cons.prems show ?thesis by simp
  next
    case no_name
    with Cons.prems show ?thesis by simp
  next
    case (resolved name)
    with Cons.IH [of "s\<lparr>sent := sent s @ [ads_api_adress @ c],
                 current_list := (current_list s)(c \<mapsto> name), updated := True\<rparr>"] Cons.prems
    show ?thesis by simp
  qed
qed

lemma resolver_failed_lookup:
  assumes run: "get_dict_of_journals_names requests_get count_per_journal key w = (r, w')"
    and url: "url \<in> set (drop (length (requests w)) (requests w'))"
    and status: "status_code (requests_get url (''Bearer '' @ key)) \<noteq> 200"
  shows "r = Inl (Warning (''request status code: ''
                           @ str (status_code (requests_get url (''Bearer '' @ key)))))"
    and "journal_names_json w' = journal_names_json w"
    and "writes w' = writes w"
    and "last (requests w') = url"
proof -
  obtain names where names: "journal_names_json w = Some names"
    using run url by (cases "journal_names_json w") (auto simp: get_dict_of_journals_names_def)
  let ?init = "\<lparr>current_list = names, updated = False, sent = requests w, raised = None\<rparr>"
  let ?s = "scan_journals requests_get key (map fst count_per_journal) ?init"
  from scan_sent [where requests_get = requests_get and key = key
      and codes = "map fst count_per_journal" and s = ?init] obtain new where
    new: "sent ?s = requests w @ new"
    and bad: "\<forall>url\<in>set new. status_code (requests_get url (''Bearer '' @ key)) \<noteq> 200 \<longrightarrow>
        raised ?s = Some (Warning (''request status code: ''
                           @ str (status_code (requests_get url (''Bearer '' @ key))))) \<and>
        last new = url"
    by auto
  have w': "requests w' = sent ?s"
    using run names by (auto simp: get_dict_of_journals_names_def Let_def split: option.splits if_splits)
  with new url have "url \<in> set new" by simp
  with bad status have raised: "raised ?s = Some (Warning (''request status code: ''
                           @ str (status_code (requests_get url (''Bearer '' @ key)))))"
    and last: "last new = url" and "new \<noteq> []"
    by auto
  from run names raised show "r = Inl (Warning (''request status code: ''
                           @ str (status_code (requests_get url (''Bearer '' @ key)))))"
    and "journal_names_json w' = journal_names_json w" and "writes w' = writes w"
    by (auto simp: get_dict_of_journals_names_def Let_def)
  from w' new last \<open>new \<noteq> []\<close> show "last (requests w') = url" by simp
qed


lemma resolver_known:
  assumes "journal_names_json w = Some names"
    and "\<forall>index\<in>set (map fst count_per_journal). index \<noteq> ''other'' \<longrightarrow> index \<in> dom names"
  shows "get_dict_of_journals_names requests_get count_per_journal key w = (Inr (), w)"
  using assms by (simp add: get_dict_of_journals_names_def scan_known)

lemma resolver_success:
  assumes "get_dict_of_journals_names requests_get count_per_journal key w = (Inr (), w')"
  shows "\<exists>names'. journal_names_json w' = Some names' \<and>
     (\<forall>index\<in>set (map fst count_per_journal). index \<noteq> ''other'' \<longrightarrow> index \<in> dom names')"
proof -
  from assms obtain names where names: "journal_names_json w = Some names"
    by (cases "journal_names_json w") (auto simp: get_dict_of_journals_names_def)
  let ?init = "\<lparr>current_list = names, updated = False, sent = requests w, raised = None\<rparr>"
  let ?s = "scan_journals requests_get key (map fst count_per_journal) ?init"
  have raised: "raised ?s = None"
    using assms names
    by (cases "raised ?s") (auto simp: get_dict_of_journals_names_def Let_def)
  then have all: "\<forall>index\<in>set (map fst count_per_journal). index \<noteq> ''other'' \<longrightarrow>
      index \<in> dom (current_list ?s)"
    by (rule scan_resolves)
  show ?thesis
  proof (cases "updated ?s")
    case True
    with assms names raised have "journal_names_json w' = Some (current_list ?s)"
      by (auto simp: get_dict_of_journals_names_def Let_def)
    with all show ?thesis by blast
  next
    case False
    with assms names raised have "journal_names_json w' = Some names"
      by (auto simp: get_dict_of_journals_names_def Let_def)
    moreover from False have "current_list ?s = names"
      using scan_not_updated [where s = ?init and codes = "map fst count_per_journal"
          and requests_get = requests_get and key = key] by simp
    ultimately show ?thesis using all by auto
  qed
qed

lemma example_failed_run:
  "get_dict_of_journals_names ads_example [(''A&A'', 3), (''ApJ'', 2)] ''key'' world_example
   = (Inl (Warning ''request status code: 404''),
      world_example\<lparr>requests := [ads_api_adress @ ''A&A'', ads_api_adress @ ''ApJ'']\<rparr>)"
  by (simp add: get_dict_of_journals_names_def world_example_def ads_example_def str_404)

subsection \<open>The resolver\<close>

text \<open>C4. If a request of the run got a status other than 200, the run ends with an
  exception, and the file of names holds what it held before the run and has not been
  written, also when names were resolved earlier in the run.\<close>

theorem failed_lookup_leaves_file:
  assumes "get_dict_of_journals_names requests_get count_per_journal key w = (r, w')"
    and "url \<in> set (drop (length (requests w)) (requests w'))"
    and "status_code (requests_get url (''Bearer '' @ key)) \<noteq> 200"
  shows "(\<exists>e. r = Inl e) \<and> journal_names_json w' = journal_names_json w \<and> writes w' = writes w"
  using resolver_failed_lookup [OF assms] by simp

theorem failed_lookup_leaves_file_witness:
  "get_dict_of_journals_names ads_example [(''A&A'', 3), (''ApJ'', 2)] ''key'' world_example
   = (Inl (Warning ''request status code: 404''),
      world_example\<lparr>requests := [ads_api_adress @ ''A&A'', ads_api_adress @ ''ApJ'']\<rparr>) \<and>
   status_code (ads_example (ads_api_adress @ ''A&A'') (''Bearer '' @ ''key'')) = 200 \<and>
   status_code (ads_example (ads_api_adress @ ''ApJ'') (''Bearer '' @ ''key'')) \<noteq> 200 \<and>
   journal_names_json
     (world_example\<lparr>requests := [ads_api_adress @ ''A&A'', ads_api_adress @ ''ApJ'']\<rparr>)
   = Some [''AJ'' \<mapsto> ''The Astronomical Journal''] \<and>
   writes (world_example\<lparr>requests := [ads_api_adress @ ''A&A'', ads_api_adress @ ''ApJ'']\<rparr>) = 0"
proof -
  let ?w' = "world_example\<lparr>requests := [ads_api_adress @ ''A&A'', ads_api_adress @ ''ApJ'']\<rparr>"
  have url: "ads_api_adress @ ''ApJ'' \<in> set (drop (length (requests world_example)) (requests ?w'))"
    by (simp add: world_example_def)
  have status: "status_code (ads_example (ads_api_adress @ ''ApJ'') (''Bearer '' @ ''key'')) \<noteq> 200"
    by (simp add: ads_example_def)
  have ok: "status_code (ads_example (ads_api_adress @ ''A&A'') (''Bearer '' @ ''key'')) = 200"
    by (simp add: ads_example_def)
  from failed_lookup_leaves_file [OF example_failed_run url status] example_failed_run status ok
  show ?thesis by (simp add: world_example_def)
qed

text \<open>C5, as claimed: the error of a failed lookup carries the journal code. It does not:
  the run that fails on \<^verbatim>\<open>ApJ\<close> and the run that fails on \<^verbatim>\<open>MNRAS\<close> raise the same
  exception, whose message names the status only.\<close>

theorem error_carries_code_counterexample:
  "get_dict_of_journals_names ads_example [(''ApJ'', 2)] ''key'' world_example
   = (Inl (Warning ''request status code: 404''),
      world_example\<lparr>requests := [ads_api_adress @ ''ApJ'']\<rparr>) \<and>
   get_dict_of_journals_names ads_example [(''MNRAS'', 7)] ''key'' world_example
   = (Inl (Warning ''request status code: 404''),
      world_example\<lparr>requests := [ads_api_adress @ ''MNRAS'']\<rparr>)"
  by (simp add: get_dict_of_journals_names_def world_example_def ads_example_def str_404)

text \<open>C5, amended. If a request of the run got a status other than 200, the run ends with
  the exception \<^verbatim>\<open>Warning\<close> whose message is \<^verbatim>\<open>request status code: \<close> followed
  by that status, and that request is the last one the run has sent.\<close>

theorem failed_lookup_raises_warning:
  assumes "get_dict_of_journals_names requests_get count_per_journal key w = (r, w')"
    and "url \<in> set (drop (length (requests w)) (requests w'))"
    and "status_code (requests_get url (''Bearer '' @ key)) \<noteq> 200"
  shows "r = Inl (Warning (''request status code: ''
                           @ str (status_code (requests_get url (''Bearer '' @ key))))) \<and>
         last (requests w') = url"
  using resolver_failed_lookup [OF assms] by simp

theorem failed_lookup_raises_warning_witness:
  "get_dict_of_journals_names ads_example [(''A&A'', 3), (''ApJ'', 2), (''MNRAS'', 7)] ''key''
     world_example
   = (Inl (Warning ''request status code: 404''),
      world_example\<lparr>requests := [ads_api_adress @ ''A&A'', ads_api_adress @ ''ApJ'']\<rparr>) \<and>
   status_code (ads_example (ads_api_adress @ ''ApJ'') (''Bearer '' @ ''key'')) = 404 \<and>
   last (requests
     (world_example\<lparr>requests := [ads_api_adress @ ''A&A'', ads_api_adress @ ''ApJ'']\<rparr>))
   = ads_api_adress @ ''ApJ''"
proof -
  let ?w' = "world_example\<lparr>requests := [ads_api_adress @ ''A&A'', ads_api_adress @ ''ApJ'']\<rparr>"
  have run: "get_dict_of_journals_names ads_example [(''A&A'', 3), (''ApJ'', 2), (''MNRAS'', 7)]
               ''key'' world_example
             = (Inl (Warning ''request status code: 404''), ?w')"
    by (simp add: get_dict_of_journals_names_def world_example_def ads_example_def str_404)
  have url: "ads_api_adress @ ''ApJ'' \<in> set (drop (length (requests world_example)) (requests ?w'))"
    by (simp add: world_example_def)
  have status: "status_code (ads_example (ads_api_adress @ ''ApJ'') (''Bearer '' @ ''key'')) \<noteq> 200"
    by (simp add: ads_example_def)
  have s404: "status_code (ads_example (ads_api_adress @ ''ApJ'') (''Bearer '' @ ''key'')) = 404"
    by (simp add: ads_example_def)
  from failed_lookup_raises_warning [OF run url status] run s404
  show ?thesis by simp
qed

text \<open>C6. When the file holds a name for every code of the table other than
  \<^verbatim>\<open>other\<close>, the run returns and leaves everything as it was: the file holds the same
  names and is not written, and no request is sent. That is the case after a run that
  returned: a second run over the same table, whatever the service then answers, changes
  nothing.\<close>

theorem known_codes_change_nothing:
  "(journal_names_json w = Some names \<longrightarrow>
    (\<forall>index\<in>set (map fst count_per_journal). index \<noteq> ''other'' \<longrightarrow> index \<in> dom names) \<longrightarrow>
    get_dict_of_journals_names requests_get count_per_journal key w = (Inr (), w)) \<and>
   (get_dict_of_journals_names requests_get count_per_journal key w = (Inr (), w') \<longrightarrow>
    get_dict_of_journals_names requests_get' count_per_journal key' w' = (Inr (), w'))"
proof (intro conjI impI)
  assume "journal_names_json w = Some names"
    and "\<forall>index\<in>set (map fst count_per_journal). index \<noteq> ''other'' \<longrightarrow> index \<in> dom names"
  then show "get_dict_of_journals_names requests_get count_per_journal key w = (Inr (), w)"
    by (rule resolver_known)
next
  assume "get_dict_of_journals_names requests_get count_per_journal key w = (Inr (), w')"
  from resolver_success [OF this] obtain names' where
    "journal_names_json w' = Some names'"
    "\<forall>index\<in>set (map fst count_per_journal). index \<noteq> ''other'' \<longrightarrow> index \<in> dom names'"
    by blast
  then show "get_dict_of_journals_names requests_get' count_per_journal key' w' = (Inr (), w')"
    by (rule resolver_known)
qed

theorem known_codes_change_nothing_witness:
  "get_dict_of_journals_names ads_example [(''A&A'', 3), (''other'', 2)] ''key'' world_example
   = (Inr (),
      \<lparr>journal_names_json = Some [''AJ'' \<mapsto> ''The Astronomical Journal'',
                                   ''A&A'' \<mapsto> ''Astronomy and Astrophysics''],
       writes = 1, requests = [ads_api_adress @ ''A&A'']\<rparr>) \<and>
   ''A&A'' \<in> dom [''AJ'' \<mapsto> ''The Astronomical Journal'',
                    ''A&A'' \<mapsto> ''Astronomy and Astrophysics''] \<and>
   get_dict_of_journals_names ads_example [(''A&A'', 3), (''other'', 2)] ''key''
     \<lparr>journal_names_json = Some [''AJ'' \<mapsto> ''The Astronomical Journal'',
                                   ''A&A'' \<mapsto> ''Astronomy and Astrophysics''],
      writes = 1, requests = [ads_api_adress @ ''A&A'']\<rparr>
   = (Inr (),
      \<lparr>journal_names_json = Some [''AJ'' \<mapsto> ''The Astronomical Journal'',
                                   ''A&A'' \<mapsto> ''Astronomy and Astrophysics''],
       writes = 1, requests = [ads_api_adress @ ''A&A'']\<rparr>)"
proof -
  let ?names = "[''AJ'' \<mapsto> ''The Astronomical Journal'', ''A&A'' \<mapsto> ''Astronomy and Astrophysics'']"
  let ?w' = "\<lparr>journal_names_json = Some ?names, writes = 1,
             requests = [ads_api_adress @ ''A&A'']\<rparr>"
  have run: "get_dict_of_journals_names ads_example [(''A&A'', 3), (''other'', 2)] ''key''
               world_example = (Inr (), ?w')"
    by (simp add: get_dict_of_journals_names_def world_example_def ads_example_def)
  have known: "\<forall>index\<in>set (map fst [(''A&A'', 3::int), (''other'', 2)]).
                 index \<noteq> ''other'' \<longrightarrow> index \<in> dom ?names"
    by simp
  from known_codes_change_nothing [where w = world_example and w' = ?w'
      and requests_get = ads_example and requests_get' = ads_example and key = "''key''"
      and key' = "''key''" and count_per_journal = "[(''A&A'', 3), (''other'', 2)]"] run
  have "get_dict_of_journals_names ads_example [(''A&A'', 3), (''other'', 2)] ''key'' ?w'
        = (Inr (), ?w')"
    by blast
  moreover from known_codes_change_nothing [where w = ?w' and names = ?names
      and requests_get = ads_example and key = "''key''"
      and count_per_journal = "[(''A&A'', 3), (''other'', 2)]"] known
  have "get_dict_of_journals_names ads_example [(''A&A'', 3), (''other'', 2)] ''key'' ?w'
        = (Inr (), ?w')"
    by simp
  ultimately show ?thesis using run by simp
qed

text \<open>C7. The names only grow. Through any part of the loop, from any state, every entry
  the dictionary had is still there with its value and every new key is one of the codes
  scanned; and the file after a run, failed or not, holds every entry it held before, with
  new keys only among the codes of the table.\<close>

theorem name_map_grows:
  "current_list s \<subseteq>\<^sub>m current_list (scan_journals requests_get key codes s) \<and>
   dom (current_list (scan_journals requests_get key codes s))
     \<subseteq> dom (current_list s) \<union> set codes \<and>
   (get_dict_of_journals_names requests_get count_per_journal key w = (r, w') \<longrightarrow>
    journal_names_json w = Some names \<longrightarrow>
    (\<exists>names'. journal_names_json w' = Some names' \<and> names \<subseteq>\<^sub>m names' \<and>
       dom names' \<subseteq> dom names \<union> fst ` set count_per_journal))"
proof -
  let ?init = "\<lparr>current_list = names, updated = False, sent = requests w, raised = None\<rparr>"
  have "names \<subseteq>\<^sub>m current_list (scan_journals requests_get key (map fst count_per_journal) ?init)"
    and "dom (current_list (scan_journals requests_get key (map fst count_per_journal) ?init))
         \<subseteq> dom names \<union> fst ` set count_per_journal"
    using scan_grows [where s = ?init and codes = "map fst count_per_journal"
        and requests_get = requests_get and key = key]
    by simp_all
  then have "get_dict_of_journals_names requests_get count_per_journal key w = (r, w') \<longrightarrow>
    journal_names_json w = Some names \<longrightarrow>
    (\<exists>names'. journal_names_json w' = Some names' \<and> names \<subseteq>\<^sub>m names' \<and>
       dom names' \<subseteq> dom names \<union> fst ` set count_per_journal)"
    by (auto simp: get_dict_of_journals_names_def Let_def split: option.splits if_splits)
  with scan_grows [where s = s and requests_get = requests_get and key = key and codes = codes]
  show ?thesis by blast
qed




theorem name_map_grows_witness:
  "get_dict_of_journals_names ads_example [(''A&A'', 3), (''other'', 2)] ''key'' world_example
   = (Inr (),
      \<lparr>journal_names_json = Some [''AJ'' \<mapsto> ''The Astronomical Journal'',
                                   ''A&A'' \<mapsto> ''Astronomy and Astrophysics''],
       writes = 1, requests = [ads_api_adress @ ''A&A'']\<rparr>) \<and>
   journal_names_json world_example = Some [''AJ'' \<mapsto> ''The Astronomical Journal''] \<and>
   [''AJ'' \<mapsto> ''The Astronomical Journal'']
     \<subseteq>\<^sub>m [''AJ'' \<mapsto> ''The Astronomical Journal'', ''A&A'' \<mapsto> ''Astronomy and Astrophysics''] \<and>
   dom [''AJ'' \<mapsto> ''The Astronomical Journal'', ''A&A'' \<mapsto> ''Astronomy and Astrophysics'']
     \<subseteq> dom [''AJ'' \<mapsto> ''The Astronomical Journal''] \<union> fst ` set [(''A&A'', 3::int), (''other'', 2)]"
proof -
  let ?w' = "\<lparr>journal_names_json = Some [''AJ'' \<mapsto> ''The Astronomical Journal'',
                                   ''A&A'' \<mapsto> ''Astronomy and Astrophysics''],
       writes = 1, requests = [ads_api_adress @ ''A&A'']\<rparr>"
  have run: "get_dict_of_journals_names ads_example [(''A&A'', 3), (''other'', 2)] ''key''
               world_example = (Inr (), ?w')"
    by (simp add: get_dict_of_journals_names_def world_example_def ads_example_def)
  have names0: "journal_names_json world_example = Some [''AJ'' \<mapsto> ''The Astronomical Journal'']"
    by (simp add: world_example_def)
  from name_map_grows [where requests_get = ads_example and key = "''key''" and w = world_example
      and count_per_journal = "[(''A&A'', 3), (''other'', 2)]" and r = "Inr ()" and w' = ?w'
      and names = "[''AJ'' \<mapsto> ''The Astronomical Journal'']"
      and s = "\<lparr>current_list = Map.empty, updated = False, sent = [], raised = None\<rparr>"
      and codes = "[]"] run names0
  show ?thesis by simp
qed


subsection \<open>Helper facts on the chart table\<close>

lemma series_neq:
  "(if series_eq sub family then None else sub) = Some name \<Longrightarrow> family \<noteq> Some name"
  by (auto simp: series_eq_def split: if_splits)

lemma series_eq_absent:
  "family = sub \<Longrightarrow> (if series_eq sub family then None else sub) = None"
  by (cases sub) (auto simp: series_eq_def)

lemma plot_pie_chart_rows:
  assumes "plot_pie_chart w cutoff count_per_journal = Inr rows"
  shows "\<exists>names. journal_names_json w = Some names \<and>
     rows = map (chart_row_of
                  (names(''other'' \<mapsto> ''journals with less than '' @ str cutoff @ '' catalogues'')))
              count_per_journal"
proof (cases "journal_names_json w")
  case None
  with assms show ?thesis by (simp add: plot_pie_chart_def)
next
  case (Some names)
  have "plot_pie_chart w cutoff count_per_journal
      = Inr (map (chart_row_of
                  (names(''other'' \<mapsto> ''journals with less than '' @ str cutoff @ '' catalogues'')))
              count_per_journal)"
    unfolding plot_pie_chart_def Some option.simps Let_def by (rule refl)
  with assms Some show ?thesis by simp
qed

lemma chart_row_of_simps:
  "index (chart_row_of m (i, n)) = i"
  "number_of_catalogues (chart_row_of m (i, n)) = n"
  "journal_name (chart_row_of m (i, n)) = series_replace principal_journal (m i)"
  "sub_journal_name (chart_row_of m (i, n))
   = (if series_eq (m i) (series_replace principal_journal (m i)) then None else m i)"
  by (simp_all add: chart_row_of_def Let_def)


lemma chart_row_no_self_child:
  "sub_journal_name (chart_row_of m row) = Some name \<Longrightarrow>
   journal_name (chart_row_of m row) \<noteq> Some name"
  by (cases row) (simp only: chart_row_of_simps series_neq not_False_eq_True)

lemma chart_row_absent:
  "journal_name (chart_row_of m row) = m (fst row) \<Longrightarrow>
   sub_journal_name (chart_row_of m row) = None"
  by (cases row) (simp only: chart_row_of_simps series_eq_absent fst_conv)

lemma chart_rows_sum:
  "sum_list (map number_of_catalogues (map (chart_row_of m) rows)) = sum_list (map snd rows)"
  by (induction rows) (auto simp only: chart_row_of_simps list.map sum_list.Nil sum_list.Cons snd_conv)

lemma str_2: "str 2 = ''2''"
  by code_simp

lemma example_chart:
  "plot_pie_chart
     \<lparr>journal_names_json = Some [''AJ'' \<mapsto> ''The Astronomical Journal'',
                                   ''Natur'' \<mapsto> ''Nature''],
      writes = 0, requests = []\<rparr> 2 [(''AJ'', 3), (''Natur'', 4), (''other'', 2), (''ApJ'', 5)]
   = Inr [\<lparr>index = ''AJ'', number_of_catalogues = 3,
           sub_journal_name = Some ''The Astronomical Journal'',
           journal_name = Some ''American Astronomical Society Journals''\<rparr>,
          \<lparr>index = ''Natur'', number_of_catalogues = 4, sub_journal_name = None,
           journal_name = Some ''Nature''\<rparr>,
          \<lparr>index = ''other'', number_of_catalogues = 2, sub_journal_name = None,
           journal_name = Some ''journals with less than 2 catalogues''\<rparr>,
          \<lparr>index = ''ApJ'', number_of_catalogues = 5, sub_journal_name = None,
           journal_name = None\<rparr>]"
  by (simp add: plot_pie_chart_def chart_row_of_def series_replace_def series_eq_def
      principal_journal_def str_2)

subsection \<open>The chart table\<close>

text \<open>C8. No row of the chart table has a sub journal name equal to its journal (family)
  name; a row whose family name is the display name of its code has no sub journal name;
  and the counts of the rows add up to the counts of the aggregation.\<close>

theorem chart_rows_have_no_self_child:
  assumes "plot_pie_chart w cutoff count_per_journal = Inr rows"
  shows "(\<forall>row\<in>set rows. \<forall>name. sub_journal_name row = Some name \<longrightarrow> journal_name row \<noteq> Some name) \<and>
         (\<exists>names. journal_names_json w = Some names \<and> length rows = length count_per_journal \<and>
            (\<forall>i<length rows.
               journal_name (rows ! i)
                 = (names(''other'' \<mapsto> ''journals with less than '' @ str cutoff @ '' catalogues''))
                     (fst (count_per_journal ! i))
               \<longrightarrow> sub_journal_name (rows ! i) = None)) \<and>
         sum_list (map number_of_catalogues rows) = sum_list (map snd count_per_journal)"
proof -
  from plot_pie_chart_rows [OF assms] obtain names where
    names: "journal_names_json w = Some names" and
    rows: "rows = map (chart_row_of
                  (names(''other'' \<mapsto> ''journals with less than '' @ str cutoff @ '' catalogues'')))
              count_per_journal"
    by blast
  have "\<forall>row\<in>set rows. \<forall>name. sub_journal_name row = Some name \<longrightarrow> journal_name row \<noteq> Some name"
    unfolding rows using chart_row_no_self_child by (auto simp del: fun_upd_apply)
  moreover have "length rows = length count_per_journal"
    unfolding rows by simp
  moreover have "\<forall>i<length rows. journal_name (rows ! i)
                 = (names(''other'' \<mapsto> ''journals with less than '' @ str cutoff @ '' catalogues''))
                     (fst (count_per_journal ! i))
               \<longrightarrow> sub_journal_name (rows ! i) = None"
    unfolding rows using chart_row_absent by (auto simp del: fun_upd_apply)
  moreover have "sum_list (map number_of_catalogues rows) = sum_list (map snd count_per_journal)"
    unfolding rows by (rule chart_rows_sum)
  ultimately show ?thesis using names by blast
qed

theorem chart_rows_have_no_self_child_witness:
  "plot_pie_chart
     \<lparr>journal_names_json = Some [''AJ'' \<mapsto> ''The Astronomical Journal'',
                                   ''Natur'' \<mapsto> ''Nature''],
      writes = 0, requests = []\<rparr> 2 [(''AJ'', 3), (''Natur'', 4), (''other'', 2), (''ApJ'', 5)]
   = Inr [\<lparr>index = ''AJ'', number_of_catalogues = 3,
           sub_journal_name = Some ''The Astronomical Journal'',
           journal_name = Some ''American Astronomical Society Journals''\<rparr>,
          \<lparr>index = ''Natur'', number_of_catalogues = 4, sub_journal_name = None,
           journal_name = Some ''Nature''\<rparr>,
          \<lparr>index = ''other'', number_of_catalogues = 2, sub_journal_name = None,
           journal_name = Some ''journals with less than 2 catalogues''\<rparr>,
          \<lparr>index = ''ApJ'', number_of_catalogues = 5, sub_journal_name = None,
           journal_name = None\<rparr>] \<and>
   Some ''American Astronomical Society Journals'' \<noteq> Some ''The Astronomical Journal'' \<and>
   (3::int) + 4 + 2 + 5 = 14"
  using chart_rows_have_no_self_child [OF example_chart] example_chart by simp

end
